theory Spec2Isabelle
  imports Main "HOL-Library.Sublist"
begin

section \<open>Python strings\<close>

text \<open>
  Strings are lists of characters, a character being one of the first 256 code points of
  Unicode. The three string operations the code relies on are the substring test
  \<^verbatim>\<open>needle in line\<close>, \<^verbatim>\<open>str.lower()\<close> and \<^verbatim>\<open>str.strip()\<close>. On these
  code points \<^verbatim>\<open>lower\<close> folds the letters A to Z and the accented capitals
  0xC0 to 0xDE (the multiplication sign 0xD7 apart), and the white space that
  \<^verbatim>\<open>strip\<close> removes is 0x09 to 0x0D, 0x1C to 0x20, 0x85 and 0xA0.
\<close>

fun contains :: "string \<Rightarrow> string \<Rightarrow> bool" where
  "contains needle [] = (needle = [])"
| "contains needle (c # cs) = (prefix needle (c # cs) \<or> contains needle cs)"

definition upper_case :: string where
  "upper_case = ''ABCDEFGHIJKLMNOPQRSTUVWXYZ'' @
       [CHR 0xC0, CHR 0xC1, CHR 0xC2, CHR 0xC3, CHR 0xC4, CHR 0xC5, CHR 0xC6, CHR 0xC7,
        CHR 0xC8, CHR 0xC9, CHR 0xCA, CHR 0xCB, CHR 0xCC, CHR 0xCD, CHR 0xCE, CHR 0xCF,
        CHR 0xD0, CHR 0xD1, CHR 0xD2, CHR 0xD3, CHR 0xD4, CHR 0xD5, CHR 0xD6, CHR 0xD8,
        CHR 0xD9, CHR 0xDA, CHR 0xDB, CHR 0xDC, CHR 0xDD, CHR 0xDE]"

definition lower_case :: string where
  "lower_case = ''abcdefghijklmnopqrstuvwxyz'' @
       [CHR 0xE0, CHR 0xE1, CHR 0xE2, CHR 0xE3, CHR 0xE4, CHR 0xE5, CHR 0xE6, CHR 0xE7,
        CHR 0xE8, CHR 0xE9, CHR 0xEA, CHR 0xEB, CHR 0xEC, CHR 0xED, CHR 0xEE, CHR 0xEF,
        CHR 0xF0, CHR 0xF1, CHR 0xF2, CHR 0xF3, CHR 0xF4, CHR 0xF5, CHR 0xF6, CHR 0xF8,
        CHR 0xF9, CHR 0xFA, CHR 0xFB, CHR 0xFC, CHR 0xFD, CHR 0xFE]"

definition lower_char :: "char \<Rightarrow> char" where
  "lower_char c = (case map_of (zip upper_case lower_case) c of None \<Rightarrow> c | Some l \<Rightarrow> l)"

definition lower :: "string \<Rightarrow> string" where
  "lower s = map lower_char s"

definition is_space :: "char \<Rightarrow> bool" where
  "is_space c =
     (c \<in> set [CHR 0x09, CHR 0x0A, CHR 0x0B, CHR 0x0C, CHR 0x0D,
                CHR 0x1C, CHR 0x1D, CHR 0x1E, CHR 0x1F, CHR 0x20, CHR 0x85, CHR 0xA0])"

definition strip :: "string \<Rightarrow> string" where
  "strip s = rev (dropWhile is_space (rev (dropWhile is_space s)))"

fun join :: "string \<Rightarrow> string list \<Rightarrow> string" where
  "join sep [] = []"
| "join sep [x] = x"
| "join sep (x # y # ys) = x @ sep @ join sep (y # ys)"

section \<open>Errors\<close>

text \<open>
  Every \<^verbatim>\<open>raise\<close> of the source is a value of this type. \<open>PyException\<close> is
  the plain \<^verbatim>\<open>Exception(message)\<close> the application module raises itself.
\<close>

datatype error =
    PyException string
  | ValueError string
  | IOError string
  | CommandExecutionFailure "string list"
  | IndexError
  | TypeError
  | TimeoutError
  | InvalidStateError

section \<open>The watchdog timer (timing.py)\<close>

datatype future = Pending | Finished

datatype task = Scheduled string | Cancelled string

record timer =
  timer_future :: "future option"
  timer_timeout :: nat
  timer_task :: "task option"

text \<open>\<^verbatim>\<open>Timer.__init__\<close>: a fresh future, the duration (a number of
  milliseconds here), and no task.\<close>

definition Timer :: "nat \<Rightarrow> timer" where
  "Timer duration = \<lparr>timer_future = Some Pending, timer_timeout = duration, timer_task = None\<rparr>"

text \<open>
  \<^verbatim>\<open>Timer.mark_end\<close>. Setting the result of a future that already has one raises
  asyncio's \<^verbatim>\<open>InvalidStateError\<close>; cancelling a task keeps its name.
\<close>

definition mark_end :: "string \<Rightarrow> timer \<Rightarrow> (error + unit) \<times> timer" where
  "mark_end name t =
     (case (timer_future t, timer_task t) of
        (Some f, Some k) \<Rightarrow>
          (case f of
             Finished \<Rightarrow> (Inl InvalidStateError, t)
           | Pending \<Rightarrow>
               (Inr (),
                t\<lparr>timer_future := Some Finished,
                  timer_task := Some (case k of Scheduled n \<Rightarrow> Cancelled n
                                              | Cancelled n \<Rightarrow> Cancelled n)\<rparr>))
      | _ \<Rightarrow> (Inl (PyException ''Internal error: marking end without a start?!''), t))"

text \<open>\<^verbatim>\<open>Timer.mark_start\<close>: schedules the waiting coroutine as a task.\<close>

definition mark_start :: "string \<Rightarrow> timer \<Rightarrow> timer" where
  "mark_start name t = t\<lparr>timer_task := Some (Scheduled name)\<rparr>"

text \<open>
  The scheduled coroutine waits for the future, for at most the duration. When the wait is
  over, by completion or by expiry, the future is dropped: the timer is used up. On expiry
  the event loop is stopped as well, which is outside this record.
\<close>

definition timer_finished :: "timer \<Rightarrow> timer" where
  "timer_finished t = t\<lparr>timer_future := None\<rparr>"

section \<open>The device boundary\<close>

text \<open>
  The device is an external collaborator. It is modelled by the history of what was asked
  of it and by the answers it gives, each answer a function of the history so far: this
  covers every deterministic device, including one whose answers change between two calls.
  \<open>DANGEROUS_PERMISSIONS\<close> and \<open>SLEEP_PKG_INSTALL\<close> are the class constants of
  \<^verbatim>\<open>Device\<close> the application module reads; they are parameters here. Sleeps are in
  milliseconds.
\<close>

datatype action =
    Execute "string list"
  | Monitor "string list"
  | ListPackages
  | GetActivityStack
  | KeyEvent string
  | HomeScreenActive
  | Pidof string
  | Sleep nat
  | AcquireLock
  | ReleaseLock
  | Callback

record device =
  issued :: "action list"
  failing :: "action list \<Rightarrow> action \<Rightarrow> bool"
  installed_packages :: "action list \<Rightarrow> string list"
  home_active :: "action list \<Rightarrow> bool"
  pidof_lines :: "action list \<Rightarrow> string list"
  activity_stack :: "action list \<Rightarrow> string list option"
  returncode :: "action list \<Rightarrow> int"
  DANGEROUS_PERMISSIONS :: "string list"
  SLEEP_PKG_INSTALL :: nat

definition perform :: "device \<Rightarrow> action \<Rightarrow> device" where
  "perform d a = d\<lparr>issued := issued d @ [a]\<rparr>"

text \<open>\<^verbatim>\<open>device.execute_remote_cmd(*cmd)\<close>: raises when the device rejects the command.\<close>

definition execute_remote_cmd :: "device \<Rightarrow> string list \<Rightarrow> (error + unit) \<times> device" where
  "execute_remote_cmd d cmd =
     (if failing d (issued d) (Execute cmd) then Inl (CommandExecutionFailure cmd) else Inr (),
      perform d (Execute cmd))"

definition monitor_remote_cmd :: "device \<Rightarrow> string list \<Rightarrow> device" where
  "monitor_remote_cmd d cmd = perform d (Monitor cmd)"

definition list_installed_packages :: "device \<Rightarrow> string list \<times> device" where
  "list_installed_packages d = (installed_packages d (issued d), perform d ListPackages)"

definition get_activity_stack :: "device \<Rightarrow> string list option \<times> device" where
  "get_activity_stack d = (activity_stack d (issued d), perform d GetActivityStack)"

definition home_screen_active :: "device \<Rightarrow> bool \<times> device" where
  "home_screen_active d = (home_active d (issued d), perform d HomeScreenActive)"

text \<open>\<^verbatim>\<open>DeviceInteraction.input(key)\<close>: a key event, which the device may reject.\<close>

definition input :: "device \<Rightarrow> string \<Rightarrow> (error + unit) \<times> device" where
  "input d key =
     (if failing d (issued d) (KeyEvent key) then Inl (CommandExecutionFailure [key]) else Inr (),
      perform d (KeyEvent key))"

definition sleep :: "device \<Rightarrow> nat \<Rightarrow> device" where
  "sleep d ms = perform d (Sleep ms)"

section \<open>Application (application.py)\<close>

record axml =
  axml_package_name :: string
  axml_permissions :: "string list"
  axml_instrumentation :: "(string \<times> string) option"

text \<open>
  The manifest is either a parsed binary manifest or a dictionary, of which only the keys
  \<^verbatim>\<open>package_name\<close> and \<^verbatim>\<open>permissions\<close> are read.
\<close>

datatype manifest = Axml axml | Dict "string option" "string list option"

text \<open>A Python set of strings is a list without duplicates; \<open>List.insert\<close> is \<^verbatim>\<open>add\<close>.\<close>

record application =
  package_name :: string
  permissions :: "string list"
  granted_permissions :: "string list"
  version :: "string option"

definition SILENT_RUNNING_PACKAGES :: "string list" where
  "SILENT_RUNNING_PACKAGES =
     [''com.samsung.android.mtpapplication'', ''com.wssyncmldm'', ''com.bitbar.testdroid.monitor'']"

text \<open>\<^verbatim>\<open>Application.__init__\<close>\<close>

definition Application :: "manifest \<Rightarrow> error + application" where
  "Application m =
     (let name = (case m of Axml p \<Rightarrow> axml_package_name p
                          | Dict n _ \<Rightarrow> (case n of None \<Rightarrow> [] | Some s \<Rightarrow> s))
      in if name = []
         then Inl (ValueError (''manifest argument as dictionary must contain '' @ [CHR 0x22]
                       @ ''package_name'' @ [CHR 0x22] @ '' as key''))
         else Inr \<lparr>package_name = name,
                   permissions = remdups (case m of Axml p \<Rightarrow> axml_permissions p
                                   | Dict _ ps \<Rightarrow> (case ps of None \<Rightarrow> [] | Some l \<Rightarrow> l)),
                   granted_permissions = [],
                   version = None\<rparr>)"

text \<open>\<^verbatim>\<open>Application.verify_install\<close>\<close>

definition verify_install :: "device \<Rightarrow> string \<Rightarrow> (error + unit) \<times> device" where
  "verify_install d package =
     (let (packages, d1) = list_installed_packages d;
          (packages', d2) =
            (if package \<notin> set packages
             then list_installed_packages (sleep d1 (SLEEP_PKG_INSTALL d1))
             else (packages, d1))
      in if package \<notin> set packages'
         then (Inl (PyException (''Failed to verify installation of app '' @ [CHR 0x27] @ package
                       @ [CHR 0x27] @ '', event though output indicated otherwise'')), d2)
         else (Inr (), d2))"

text \<open>\<^verbatim>\<open>Application._install\<close>\<close>

definition install :: "device \<Rightarrow> string \<Rightarrow> string list \<Rightarrow> (error + unit) \<times> device" where
  "install d apk_path args = execute_remote_cmd d ([''install''] @ args @ [apk_path])"

text \<open>
  \<^verbatim>\<open>Application._monitor_install\<close>. \<open>parser\<close> is what parsing the apk returned. The
  \<^verbatim>\<open>finally\<close> block removes the pushed file whatever happened, and swallows a failure
  of the removal. \<open>callback\<close> tells whether a callback was supplied; the install process
  is taken to end within the long timeout, with the exit code \<open>returncode\<close>.
\<close>

definition monitor_install ::
  "device \<Rightarrow> string \<Rightarrow> axml \<Rightarrow> string list \<Rightarrow> bool \<Rightarrow> (error + unit) \<times> device" where
  "monitor_install d apk_path parser args callback =
     (let package = axml_package_name parser;
          remote_data_path = ''/data/local/tmp/'' @ package;
          (pushed, d1) = execute_remote_cmd d [''push'', apk_path, remote_data_path];
          (outcome, d5) =
            (case pushed of
               Inl e \<Rightarrow> (Inl (IOError ''Unable to push apk to device''), d1)
             | Inr _ \<Rightarrow>
                 (let cmd = [''shell'', ''pm'', ''install''] @ args @ [remote_data_path];
                      d2 = monitor_remote_cmd (perform d1 AcquireLock) cmd;
                      d3 = (if callback then perform d2 Callback else d2);
                      rc = returncode d3 (issued d3);
                      d4 = perform d3 ReleaseLock
                  in if rc \<noteq> 0 then (Inl (CommandExecutionFailure cmd), d4) else (Inr (), d4)));
          (removed, d6) = execute_remote_cmd d5 [''shell'', ''rm'', remote_data_path]
      in (outcome, d6))"

text \<open>\<^verbatim>\<open>Application.from_apk_async\<close> and \<^verbatim>\<open>Application.from_apk\<close>\<close>

definition from_apk_async ::
  "device \<Rightarrow> string \<Rightarrow> axml \<Rightarrow> bool \<Rightarrow> bool \<Rightarrow> (error + application) \<times> device" where
  "from_apk_async d apk_path parser as_upgrade callback =
     (let args = (if as_upgrade then [''-r''] else [])
      in case monitor_install d apk_path parser args callback of
           (Inl e, d1) \<Rightarrow> (Inl e, d1)
         | (Inr _, d1) \<Rightarrow> (Application (Axml parser), d1))"

definition from_apk ::
  "device \<Rightarrow> string \<Rightarrow> axml \<Rightarrow> bool \<Rightarrow> (error + application) \<times> device" where
  "from_apk d apk_path parser as_upgrade =
     (let args = (if as_upgrade then [''-r''] else [])
      in case install d apk_path args of
           (Inl e, d1) \<Rightarrow> (Inl e, d1)
         | (Inr _, d1) \<Rightarrow> (Application (Axml parser), d1))"

text \<open>\<^verbatim>\<open>Application.pid\<close>: \<open>pidof_lines\<close> is the command's output, split into lines.\<close>

definition pid :: "device \<Rightarrow> application \<Rightarrow> string option \<times> device" where
  "pid d app =
     (let split_output = pidof_lines d (issued d)
      in (case split_output of [] \<Rightarrow> None | l # _ \<Rightarrow> Some (strip l),
          perform d (Pidof (package_name app))))"

text \<open>
  The argument of \<^verbatim>\<open>grant_permissions\<close> is any iterable of strings. What the code
  observes of it is its elements, whether it is true in a condition (an empty list, tuple
  or set is false; an iterator or generator is true even when it yields nothing), and
  whether \<^verbatim>\<open>"... %s ..." % permissions\<close> can be formatted: a tuple on the right of
  \<^verbatim>\<open>%\<close> is the argument list, so that one of another length than one raises
  \<^verbatim>\<open>TypeError\<close>. A string, a dictionary or a frozen set behaves like a list in
  these three respects.
\<close>

datatype iterable =
    PyList "string list"
  | PyTuple "string list"
  | PySet "string list"
  | PyIterator "string list"

fun elements :: "iterable \<Rightarrow> string list" where
  "elements (PyList xs) = xs"
| "elements (PyTuple xs) = xs"
| "elements (PySet xs) = xs"
| "elements (PyIterator xs) = xs"

fun truthy :: "iterable \<Rightarrow> bool" where
  "truthy (PyIterator xs) = True"
| "truthy it = (elements it \<noteq> [])"

fun formats :: "iterable \<Rightarrow> bool" where
  "formats (PyTuple xs) = (length xs = 1)"
| "formats it = True"

text \<open>
  \<^verbatim>\<open>Application.grant_permissions\<close>. \<^verbatim>\<open>permissions or self.permissions\<close> takes the
  declared permissions when the argument is \<^verbatim>\<open>None\<close> and also when it is false. When
  nothing is left after filtering, the message of \<^verbatim>\<open>log.info\<close> is formatted before the
  empty set is returned. The outcome of each grant command is dropped: the
  \<^verbatim>\<open>except\<close> clause only logs.
\<close>

fun grant_each :: "string \<Rightarrow> string list \<Rightarrow> device \<Rightarrow> string list \<Rightarrow> device \<times> string list" where
  "grant_each pkg [] d granted = (d, granted)"
| "grant_each pkg (p # ps) d granted =
     (let (outcome, d') = execute_remote_cmd d [''shell'', ''pm'', ''grant'', pkg, p]
      in grant_each pkg ps d' (List.insert p granted))"

text \<open>The command that grants one permission, as \<open>grant_each\<close> sends it.\<close>

definition grant_cmd :: "string \<Rightarrow> string \<Rightarrow> action" where
  "grant_cmd pkg p = Execute [''shell'', ''pm'', ''grant'', pkg, p]"

definition requested_permissions :: "application \<Rightarrow> iterable option \<Rightarrow> iterable" where
  "requested_permissions app perms =
     (case perms of None \<Rightarrow> PySet (permissions app)
                  | Some it \<Rightarrow> if truthy it then it else PySet (permissions app))"

definition permissions_filtered :: "device \<Rightarrow> string list \<Rightarrow> string list" where
  "permissions_filtered d perms =
     remdups (map strip (filter (\<lambda>p. p \<in> set (DANGEROUS_PERMISSIONS d)) perms))"

definition grant_permissions ::
  "device \<Rightarrow> application \<Rightarrow> iterable option
     \<Rightarrow> (device \<times> application) \<times> (error + string list)" where
  "grant_permissions d app perms =
     (let permissions = requested_permissions app perms;
          filtered = permissions_filtered d (elements permissions)
      in if filtered = []
         then ((d, app), if formats permissions then Inr [] else Inl TypeError)
         else (let (d', granted) =
                     grant_each (package_name app) filtered d (granted_permissions app)
               in ((d', app\<lparr>granted_permissions := granted\<rparr>), Inr granted)))"

text \<open>\<^verbatim>\<open>Application.regrant_permissions\<close>: the argument is the recorded set itself.\<close>

definition regrant_permissions ::
  "device \<Rightarrow> application \<Rightarrow> (device \<times> application) \<times> (error + string list)" where
  "regrant_permissions d app = grant_permissions d app (Some (PySet (granted_permissions app)))"

text \<open>\<^verbatim>\<open>Application.start\<close>\<close>

definition start ::
  "device \<Rightarrow> application \<Rightarrow> string \<Rightarrow> string list \<Rightarrow> string option \<Rightarrow> (error + unit) \<times> device" where
  "start d app activity options intent =
     (let activity1 = (if \<not> contains ''.'' activity
                       then package_name app @ ''.'' @ activity else activity);
          activity2 = package_name app @ ''/'' @ activity1;
          options' = (case intent of None \<Rightarrow> options
                        | Some i \<Rightarrow> if i = [] then options else [''-a'', i] @ options)
      in execute_remote_cmd d ([''shell'', ''am'', ''start'', ''-n'', activity2] @ options'))"

text \<open>
  \<^verbatim>\<open>Application.launch\<close>. The log stream is a finite list of events, followed either by
  its end (\<open>closes\<close>) or by silence for ever. A \<open>Tick\<close> is one unit of the clock of
  \<^verbatim>\<open>asyncio.wait_for\<close>: with a timeout of \<open>n\<close> units the \<open>n\<close>-th tick cancels the
  operation. Reading the stream with \<^verbatim>\<open>unresponsive_timeout=timeout\<close> cannot expire
  before that, since it is the same duration counted from a later moment. The result
  \<open>None\<close> is a launch that never returns.
\<close>

datatype log_event = Line string | Tick

record log_stream =
  events :: "log_event list"
  closes :: bool

fun subscribe ::
  "nat \<Rightarrow> nat option \<Rightarrow> bool \<Rightarrow> log_event list \<Rightarrow> (error + nat option \<times> log_event list) option" where
  "subscribe count budget cl [] =
     (if cl then Some (Inr (budget, []))
      else (case budget of None \<Rightarrow> None | Some n \<Rightarrow> Some (Inl TimeoutError)))"
| "subscribe count budget cl (Tick # es) =
     (case budget of
        None \<Rightarrow> subscribe count None cl es
      | Some n \<Rightarrow> if n \<le> 1 then Some (Inl TimeoutError) else subscribe count (Some (n - 1)) cl es)"
| "subscribe count budget cl (Line l # es) =
     (if count + 1 = 2 then Some (Inr (budget, es)) else subscribe (count + 1) budget cl es)"

fun scan ::
  "string \<Rightarrow> bool \<Rightarrow> nat option \<Rightarrow> bool \<Rightarrow> log_event list \<Rightarrow> (error + unit) option" where
  "scan pkg detected budget cl [] =
     (if cl then Some (Inr ())
      else (case budget of None \<Rightarrow> None | Some n \<Rightarrow> Some (Inl TimeoutError)))"
| "scan pkg detected budget cl (Tick # es) =
     (case budget of
        None \<Rightarrow> scan pkg detected None cl es
      | Some n \<Rightarrow> if n \<le> 1 then Some (Inl TimeoutError) else scan pkg detected (Some (n - 1)) cl es)"
| "scan pkg detected budget cl (Line l # es) =
     (let detected_fatal_exception = (detected \<or> contains ''FATAL EXCEPTION'' l)
      in if detected_fatal_exception \<and> contains ''Process'' l \<and> contains pkg l
         then Some (Inl (PyException ''App crashed on startup''))
         else if contains ''Displayed'' l \<and> contains pkg l then Some (Inr ())
         else scan pkg detected_fatal_exception budget cl es)"

definition logcat_cmd :: "string list" where
  "logcat_cmd = [''logcat'', ''-s'', ''ActivityManager:I'', ''ActivityTaskManager:I'',
                 ''AndroidRuntime:E'', ''-T'', ''1'']"

definition launch ::
  "device \<Rightarrow> application \<Rightarrow> string \<Rightarrow> string list \<Rightarrow> string option \<Rightarrow> nat option \<Rightarrow> log_stream
     \<Rightarrow> (error + unit) option \<times> device" where
  "launch d app activity options intent timeout s =
     (if timeout = Some 0 then (Some (Inl TimeoutError), d)
      else
        (let d1 = monitor_remote_cmd d logcat_cmd
         in case subscribe 0 timeout (closes s) (events s) of
              None \<Rightarrow> (None, d1)
            | Some (Inl e) \<Rightarrow> (Some (Inl e), d1)
            | Some (Inr (budget, rest)) \<Rightarrow>
                (case start d1 app activity options intent of
                   (Inl e, d2) \<Rightarrow> (Some (Inl e), d2)
                 | (Inr _, d2) \<Rightarrow> (scan (package_name app) False budget (closes s) rest, d2))))"

text \<open>
  Vocabulary for statements about a log stream: the clock ticks that pass during a
  stretch of events, and the lines it carries.
\<close>

definition ticks :: "log_event list \<Rightarrow> nat" where
  "ticks es = length (filter (\<lambda>e. e = Tick) es)"

text \<open>The events that arrive within a timeout of \<open>n\<close> units, that is before the \<open>n\<close>-th tick.\<close>

fun before_timeout :: "nat \<Rightarrow> log_event list \<Rightarrow> log_event list" where
  "before_timeout n [] = []"
| "before_timeout n (Tick # es) = (if n \<le> 1 then [] else Tick # before_timeout (n - 1) es)"
| "before_timeout n (Line l # es) = (if n = 0 then [] else Line l # before_timeout n es)"

fun lines_of :: "log_event list \<Rightarrow> string list" where
  "lines_of [] = []"
| "lines_of (Line l # es) = l # lines_of es"
| "lines_of (Tick # es) = lines_of es"

text \<open>\<^verbatim>\<open>Application.clean_kill\<close>: the polling loop, the kill command, the check.\<close>

fun poll_home :: "nat \<Rightarrow> device \<Rightarrow> device" where
  "poll_home 0 d = d"
| "poll_home (Suc tries) d =
     (let (active, d') = home_screen_active d
      in if active then d' else poll_home tries (sleep d' 500))"

definition send_home_and_kill :: "device \<Rightarrow> application \<Rightarrow> (error + unit) \<times> device" where
  "send_home_and_kill d app =
     (case input d ''KEYCODE_HOME'' of
        (Inl e, d1) \<Rightarrow> (Inl e, d1)
      | (Inr _, d1) \<Rightarrow>
          execute_remote_cmd (poll_home 3 d1) [''shell'', ''am'', ''kill'', package_name app])"

definition clean_kill :: "device \<Rightarrow> application \<Rightarrow> (error + unit) \<times> device" where
  "clean_kill d app =
     (case send_home_and_kill d app of
        (Inl e, d1) \<Rightarrow> (Inl e, d1)
      | (Inr _, d1) \<Rightarrow>
          (case pid d1 app of
             (None, d2) \<Rightarrow> (Inr (), d2)
           | (Some running, d2) \<Rightarrow>
               (let (active, d3) = home_screen_active d2
                in if \<not> active
                   then (Inl (PyException
                     ''Failed to background current foreground app. Cannot complete app closure.''), d3)
                   else (Inl (PyException
                     ''Detected app process is still running. App closure failed.''), d3))))"

text \<open>\<^verbatim>\<open>Application.clear_data\<close>\<close>

definition clear_data ::
  "device \<Rightarrow> application \<Rightarrow> bool \<Rightarrow> (error + unit) \<times> device \<times> application" where
  "clear_data d app regrant =
     (case execute_remote_cmd d [''shell'', ''pm'', ''clear'', package_name app] of
        (Inl e, d1) \<Rightarrow> (Inl e, d1, app)
      | (Inr _, d1) \<Rightarrow>
          (if regrant
           then (case regrant_permissions d1 app of
                   ((d2, app2), Inl e) \<Rightarrow> (Inl e, d2, app2)
                 | ((d2, app2), Inr granted) \<Rightarrow> (Inr (), d2, app2))
           else (Inr (), d1, app\<lparr>granted_permissions := []\<rparr>)))"

text \<open>
  \<^verbatim>\<open>Application.in_foreground\<close>. Reading a list at an index that is not below its length
  raises \<^verbatim>\<open>IndexError\<close>, in the condition of the loop as well as after it.
\<close>

function skip_silent :: "string list \<Rightarrow> nat \<Rightarrow> error + nat" where
  "skip_silent stack index =
     (if stack = [] then Inr index
      else if length stack \<le> index then Inl IndexError
      else if lower (stack ! index) \<in> set SILENT_RUNNING_PACKAGES
           then skip_silent stack (index + 1)
           else Inr index)"
  by pat_completeness auto
termination
  by (relation "measure (\<lambda>(stack, index). length stack - index)") auto

declare skip_silent.simps [simp del]

definition in_foreground :: "device \<Rightarrow> application \<Rightarrow> bool \<Rightarrow> (error + bool) \<times> device" where
  "in_foreground d app ignore_silent_apps =
     (let (reply, d1) = get_activity_stack d;
          stack = (case reply of None \<Rightarrow> [] | Some s \<Rightarrow> s)
      in case (if ignore_silent_apps then skip_silent stack 0 else Inr 0) of
           Inl e \<Rightarrow> (Inl e, d1)
         | Inr index \<Rightarrow>
             if index > length stack then (Inr False, d1)
             else if length stack \<le> index then (Inl IndexError, d1)
             else (Inr (lower (stack ! index) = lower (package_name app)), d1))"

section \<open>TestApplication (application.py)\<close>

record test_application = application +
  runner :: string
  target_application :: application

definition quote_arg :: "string \<Rightarrow> string" where
  "quote_arg arg =
     (if \<not> prefix [CHR 0x22] arg \<and> \<not> prefix ''-'' arg then [CHR 0x22] @ arg @ [CHR 0x22] else arg)"

text \<open>
  \<^verbatim>\<open>TestApplication.run_orchestrated\<close>. The test on the support packages is the proper
  subset \<^verbatim>\<open><\<close> of Python sets.
\<close>

definition support_packages_missing :: error where
  "support_packages_missing =
     PyException (''Must install both test-services-<version>.apk and ''
       @ ''orchestrator-<version>.apk to run under Google''
       @ [CHR 0x27] @ ''s Android Test Orchestrator'')"

definition run_orchestrated ::
  "device \<Rightarrow> test_application \<Rightarrow> string list \<Rightarrow> (error + string list) \<times> device" where
  "run_orchestrated d app options =
     (let (packages, d1) = list_installed_packages d
      in if \<not> ({''android.support.test.services'', ''android.support.test.orchestrator''}
                 \<subset> set packages)
         then (Inl support_packages_missing, d1)
         else (let (packages2, d2) = list_installed_packages d1
               in if package_name (target_application app) \<notin> set packages2
                  then (Inl (PyException (''App under test, as designatee by this test app''
                          @ [CHR 0x27] @ ''s manifest, is not installed!'')), d2)
                  else (let options_text = join '' '' (map quote_arg options);
                            cmd = [''shell'',
                               ''CLASSPATH=$(pm path android.support.test.services) ''
                               @ ''app_process / android.support.test.services.shellexecutor.ShellMain am instrument ''
                               @ ''-r -w -e -v -targetInstrumentation ''
                               @ join ''/'' [package_name app, runner app] @ '' '' @ options_text @ '' ''
                               @ ''android.support.test.orchestrator/android.support.test.orchestrator.AndroidTestOrchestrator'']
                        in (Inr cmd, monitor_remote_cmd d2 cmd))))"

section \<open>Concrete inputs\<close>

text \<open>
  A device that accepts every command and reports nothing: no installed package, no
  running process, no activity, a home screen that never becomes active. Its table of
  dangerous permissions has one entry.
\<close>

definition quiet_device :: device where
  "quiet_device =
     \<lparr>issued = [], failing = (\<lambda>h a. False), installed_packages = (\<lambda>h. []),
      home_active = (\<lambda>h. False), pidof_lines = (\<lambda>h. []), activity_stack = (\<lambda>h. None),
      returncode = (\<lambda>h. 0), DANGEROUS_PERMISSIONS = [''android.permission.CAMERA''],
      SLEEP_PKG_INSTALL = 1000\<rparr>"

definition camera_manifest :: axml where
  "camera_manifest =
     \<lparr>axml_package_name = ''com.example.app'',
      axml_permissions = [''android.permission.CAMERA''],
      axml_instrumentation = None\<rparr>"

definition camera_app :: application where
  "camera_app =
     \<lparr>package_name = ''com.example.app'', permissions = [''android.permission.CAMERA''],
      granted_permissions = [], version = None\<rparr>"

definition camera_test_app :: test_application where
  "camera_test_app =
     \<lparr>package_name = ''com.example.app.test'', permissions = [],
      granted_permissions = [], version = None,
      runner = ''androidx.test.runner.AndroidJUnitRunner'',
      target_application = camera_app\<rparr>"

text \<open>A device whose home screen is active and on which the process outlives the kill.\<close>

definition surviving_device :: device where
  "surviving_device = quiet_device\<lparr>home_active := \<lambda>h. True, pidof_lines := \<lambda>h. [''4242'']\<rparr>"




section \<open>Theorems\<close>

subsection \<open>Auxiliary facts\<close>


lemma perform_fields [simp]:
  "issued (perform d a) = issued d @ [a]"
  "failing (perform d a) = failing d"
  "installed_packages (perform d a) = installed_packages d"
  "home_active (perform d a) = home_active d"
  "pidof_lines (perform d a) = pidof_lines d"
  "activity_stack (perform d a) = activity_stack d"
  "returncode (perform d a) = returncode d"
  "DANGEROUS_PERMISSIONS (perform d a) = DANGEROUS_PERMISSIONS d"
  "SLEEP_PKG_INSTALL (perform d a) = SLEEP_PKG_INSTALL d"
  by (simp_all add: perform_def)

lemma skip_silent_all_silent:
  "\<lbrakk>\<forall>s \<in> set stack. lower s \<in> set SILENT_RUNNING_PACKAGES; stack \<noteq> []\<rbrakk>
   \<Longrightarrow> skip_silent stack index = Inl IndexError"
proof (induction stack index rule: skip_silent.induct)
  case (1 stack index)
  show ?case
  proof (cases "length stack \<le> index")
    case True
    with "1.prems" show ?thesis by (subst skip_silent.simps) simp
  next
    case False
    then have "lower (stack ! index) \<in> set SILENT_RUNNING_PACKAGES"
      using "1.prems" by simp
    then show ?thesis
      using False "1.prems" "1.IH" by (subst skip_silent.simps) simp
  qed
qed

lemma skip_silent_Nil: "skip_silent [] index = Inr index"
  by (subst skip_silent.simps) simp

lemma in_foreground_all_silent:
  assumes "\<forall>s \<in> set stack. lower s \<in> set SILENT_RUNNING_PACKAGES"
    and "activity_stack d (issued d) = Some stack \<or> (stack = [] \<and> activity_stack d (issued d) = None)"
  shows "in_foreground d app True = (Inl IndexError, perform d GetActivityStack)"
proof (cases "stack = []")
  case True
  with assms(2) show ?thesis
    by (auto simp add: in_foreground_def get_activity_stack_def skip_silent_Nil)
next
  case False
  with assms show ?thesis
    by (simp add: in_foreground_def get_activity_stack_def skip_silent_all_silent)
qed

lemma skip_silent_first:
  "\<lbrakk>stack = pre @ x # post; \<forall>s \<in> set pre. lower s \<in> set SILENT_RUNNING_PACKAGES;
    lower x \<notin> set SILENT_RUNNING_PACKAGES; index \<le> length pre\<rbrakk>
   \<Longrightarrow> skip_silent stack index = Inr (length pre)"
proof (induction stack index rule: skip_silent.induct)
  case (1 stack index)
  show ?case
  proof (cases "index = length pre")
    case True
    with "1.prems" show ?thesis by (subst skip_silent.simps) simp
  next
    case False
    with "1.prems" have lt: "index < length pre" by simp
    then have "stack ! index = pre ! index" using "1.prems"(1) by (simp add: nth_append)
    with lt "1.prems" have sil: "lower (stack ! index) \<in> set SILENT_RUNNING_PACKAGES" by simp
    have "skip_silent stack (index + 1) = Inr (length pre)"
      using "1.IH" "1.prems" lt sil by simp
    with lt sil "1.prems"(1) show ?thesis by (subst skip_silent.simps) simp
  qed
qed

lemma in_foreground_first_non_silent:
  assumes "activity_stack d (issued d) = Some (pre @ x # post)"
    and "\<forall>s \<in> set pre. lower s \<in> set SILENT_RUNNING_PACKAGES"
    and "lower x \<notin> set SILENT_RUNNING_PACKAGES"
  shows "in_foreground d app True
           = (Inr (lower x = lower (package_name app)), perform d GetActivityStack)"
  using assms skip_silent_first [of "pre @ x # post" pre x post 0]
  by (simp add: in_foreground_def get_activity_stack_def)

lemma verify_install_absent:
  assumes "package \<notin> set (installed_packages d (issued d))"
    and "package \<notin> set (installed_packages d (issued d @ [ListPackages, Sleep (SLEEP_PKG_INSTALL d)]))"
  shows "fst (verify_install d package) \<noteq> Inr () \<and>
         issued (snd (verify_install d package))
           = issued d @ [ListPackages, Sleep (SLEEP_PKG_INSTALL d), ListPackages]"
  using assms by (simp add: verify_install_def list_installed_packages_def sleep_def)

lemma from_apk_never_verifies:
  assumes "\<not> failing d (issued d) (Execute ([''install''] @ (if as_upgrade then [''-r''] else []) @ [apk_path]))"
  shows "from_apk d apk_path parser as_upgrade
           = (Application (Axml parser),
              perform d (Execute ([''install''] @ (if as_upgrade then [''-r''] else []) @ [apk_path])))"
  using assms by (simp add: from_apk_def install_def execute_remote_cmd_def)

lemma monitor_install_no_list:
  "ListPackages \<notin> set (issued d) \<Longrightarrow>
   ListPackages \<notin> set (issued (snd (monitor_install d apk_path parser args callback)))"
  by (simp add: monitor_install_def execute_remote_cmd_def monitor_remote_cmd_def Let_def
           split: sum.splits prod.splits)

lemma from_apk_async_no_list:
  "ListPackages \<notin> set (issued d) \<Longrightarrow>
   ListPackages \<notin> set (issued (snd (from_apk_async d apk_path parser as_upgrade callback)))"
  using monitor_install_no_list [of d apk_path parser "if as_upgrade then [''-r''] else []" callback]
  by (auto simp add: from_apk_async_def split: sum.splits prod.splits)

lemma clean_kill_iff:
  "fst (clean_kill d app) = Inr () \<longleftrightarrow>
     fst (send_home_and_kill d app) = Inr ()
     \<and> fst (pid (snd (send_home_and_kill d app)) app) = None"
  by (auto simp add: clean_kill_def Let_def split: prod.splits sum.splits option.splits)

lemma poll_home_fields [simp]:
  "failing (poll_home n d) = failing d"
  "home_active (poll_home n d) = home_active d"
  "pidof_lines (poll_home n d) = pidof_lines d"
  by (induction n arbitrary: d; simp add: home_screen_active_def sleep_def)+

lemma send_home_and_kill_ok:
  "fst (send_home_and_kill d app) = Inr () \<longleftrightarrow>
     \<not> failing d (issued d) (KeyEvent ''KEYCODE_HOME'')
     \<and> \<not> failing d (issued (poll_home 3 (perform d (KeyEvent ''KEYCODE_HOME''))))
           (Execute [''shell'', ''am'', ''kill'', package_name app])"
  by (simp add: send_home_and_kill_def input_def execute_remote_cmd_def)

lemma clean_kill_process_alive:
  assumes "send_home_and_kill d app = (Inr (), d1)"
    and "pidof_lines d1 (issued d1) \<noteq> []"
  shows "fst (clean_kill d app) =
           Inl (PyException
             (if home_active d1 (issued d1 @ [Pidof (package_name app)])
              then ''Detected app process is still running. App closure failed.''
              else ''Failed to background current foreground app. Cannot complete app closure.''))"
  using assms
  by (auto simp add: clean_kill_def pid_def home_screen_active_def Let_def split: list.splits)

lemma execute_remote_cmd_snd [simp]:
  "snd (execute_remote_cmd d cmd) = perform d (Execute cmd)"
  by (simp add: execute_remote_cmd_def)


lemma grant_each_device:
  "fst (grant_each pkg ps d g) = d\<lparr>issued := issued d @ map (grant_cmd pkg) ps\<rparr>"
proof (induction ps arbitrary: d g)
  case Nil
  show ?case by simp
next
  case (Cons p ps)
  show ?case
    by (simp add: Cons.IH split_beta perform_def grant_cmd_def)
qed

lemma grant_each_granted:
  "set (snd (grant_each pkg ps d g)) = set g \<union> set ps"
  by (induction ps arbitrary: d g) (auto simp add: split_beta)

lemma grant_each_distinct:
  "distinct g \<Longrightarrow> distinct (snd (grant_each pkg ps d g))"
  by (induction ps arbitrary: d g) (auto simp add: split_beta)

lemma permissions_filtered_clean:
  assumes "\<forall>p \<in> set (DANGEROUS_PERMISSIONS d). strip p = p"
  shows "set (permissions_filtered d ps) = set ps \<inter> set (DANGEROUS_PERMISSIONS d)"
  using assms by (auto simp add: permissions_filtered_def image_iff)

lemma permissions_filtered_set:
  "set (permissions_filtered d ps) = strip ` (set ps \<inter> set (DANGEROUS_PERMISSIONS d))"
  by (auto simp add: permissions_filtered_def)

lemma grant_permissions_general:
  fixes d app perms
  defines "req \<equiv> requested_permissions app perms"
  defines "fs \<equiv> permissions_filtered d (elements req)"
  defines "r \<equiv> grant_permissions d app perms"
  shows "fst (fst r) = d\<lparr>issued := issued d @ map (grant_cmd (package_name app)) fs\<rparr>"
    and "set (granted_permissions (snd (fst r))) = set (granted_permissions app) \<union> set fs"
    and "fs = [] \<Longrightarrow> r = ((d, app), if formats req then Inr [] else Inl TypeError)"
    and "fs \<noteq> [] \<Longrightarrow> snd r = Inr (granted_permissions (snd (fst r)))"
    and "snd (fst r) = app\<lparr>granted_permissions := granted_permissions (snd (fst r))\<rparr>"
  unfolding fs_def r_def req_def
  by (simp_all add: grant_permissions_def Let_def split_beta grant_each_device grant_each_granted)

lemma ticks_simps [simp]:
  "ticks [] = 0"
  "ticks (Tick # es) = Suc (ticks es)"
  "ticks (Line l # es) = ticks es"
  "ticks (xs @ ys) = ticks xs + ticks ys"
  by (simp_all add: ticks_def)

lemma lines_of_append [simp]: "lines_of (xs @ ys) = lines_of xs @ lines_of ys"
  by (induction xs rule: lines_of.induct) simp_all

lemma scan_crash:
  assumes "detected \<or> (\<exists>f \<in> set (lines_of pre @ [p]). contains ''FATAL EXCEPTION'' f)"
    and "contains ''Process'' p" and "contains pkg p"
    and "\<forall>l \<in> set (lines_of pre). \<not> (contains ''Displayed'' l \<and> contains pkg l)"
    and "case budget of None \<Rightarrow> True | Some n \<Rightarrow> ticks pre < n"
  shows "scan pkg detected budget cl (pre @ Line p # post)
           = Some (Inl (PyException ''App crashed on startup''))"
  using assms
proof (induction pre arbitrary: detected budget)
  case Nil
  then show ?case by auto
next
  case (Cons e pre)
  show ?case
  proof (cases e)
    case Tick
    show ?thesis
    proof (cases budget)
      case None
      with Tick Cons.prems Cons.IH [of detected None] show ?thesis by simp
    next
      case (Some n)
      with Tick Cons.prems have n: "1 < n" "ticks pre < n - 1" by auto
      with Tick Some Cons.prems Cons.IH [of detected "Some (n - 1)"] show ?thesis by simp
    qed
  next
    case (Line l)
    let ?det = "detected \<or> contains ''FATAL EXCEPTION'' l"
    have nd: "\<not> (contains ''Displayed'' l \<and> contains pkg l)"
      using Cons.prems(4) Line by simp
    have "scan pkg ?det budget cl (pre @ Line p # post)
            = Some (Inl (PyException ''App crashed on startup''))"
      using Cons.prems Line by (intro Cons.IH) (auto split: option.splits)
    with nd Line show ?thesis by (auto simp add: Let_def)
  qed
qed

lemma subscribe_two_lines:
  assumes "count + length (lines_of s0) = 1"
    and "case budget of None \<Rightarrow> True | Some n \<Rightarrow> ticks s0 < n"
  shows "subscribe count budget cl (s0 @ Line b # rest)
           = Some (Inr (map_option (\<lambda>n. n - ticks s0) budget, rest))"
  using assms
proof (induction s0 arbitrary: count budget)
  case Nil
  then show ?case by (cases budget) simp_all
next
  case (Cons e s0)
  show ?case
  proof (cases e)
    case Tick
    show ?thesis
    proof (cases budget)
      case None
      with Tick Cons.prems Cons.IH [of count None] show ?thesis by simp
    next
      case (Some n)
      with Tick Cons.prems have n: "1 < n" "ticks s0 < n - 1" by auto
      with Tick Some Cons.prems Cons.IH [of count "Some (n - 1)"] show ?thesis by simp
    qed
  next
    case (Line l)
    with Cons.prems have c: "count = 0" "length (lines_of s0) = 0" by auto
    with Line Cons.prems Cons.IH [of 1 budget] show ?thesis
      by (auto split: option.splits)
  qed
qed

lemma scan_times_out:
  assumes "\<And>pre l post. es = pre @ Line l # post \<Longrightarrow> ticks pre < n \<Longrightarrow>
             \<not> contains ''FATAL EXCEPTION'' l \<and> \<not> (contains ''Displayed'' l \<and> contains pkg l)"
    and "cl \<Longrightarrow> n \<le> ticks es"
    and "0 < n"
  shows "scan pkg False (Some n) cl es = Some (Inl TimeoutError)"
  using assms
proof (induction es arbitrary: n)
  case Nil
  then show ?case by auto
next
  case (Cons e es)
  show ?case
  proof (cases e)
    case Tick
    show ?thesis
    proof (cases "n \<le> 1")
      case True
      with Tick show ?thesis by simp
    next
      case False
      have "scan pkg False (Some (n - 1)) cl es = Some (Inl TimeoutError)"
      proof (rule Cons.IH)
        fix pre l post
        assume "es = pre @ Line l # post" "ticks pre < n - 1"
        then have "e # es = (Tick # pre) @ Line l # post" "ticks (Tick # pre) < n"
          using Tick by auto
        then show "\<not> contains ''FATAL EXCEPTION'' l \<and> \<not> (contains ''Displayed'' l \<and> contains pkg l)"
          by (rule Cons.prems(1))
      next
        assume cl
        then show "n - 1 \<le> ticks es" using Cons.prems(2) Tick by simp
      next
        show "0 < n - 1" using False by simp
      qed
      with False Tick show ?thesis by simp
    qed
  next
    case (Line l)
    have "e # es = [] @ Line l # es" "ticks [] < n" using Line Cons.prems(3) by simp_all
    then have nl: "\<not> contains ''FATAL EXCEPTION'' l \<and> \<not> (contains ''Displayed'' l \<and> contains pkg l)"
      by (rule Cons.prems(1))
    have "scan pkg False (Some n) cl es = Some (Inl TimeoutError)"
    proof (rule Cons.IH)
      fix pre l' post
      assume "es = pre @ Line l' # post" "ticks pre < n"
      then have "e # es = (Line l # pre) @ Line l' # post" "ticks (Line l # pre) < n"
        using Line by auto
      then show "\<not> contains ''FATAL EXCEPTION'' l' \<and> \<not> (contains ''Displayed'' l' \<and> contains pkg l')"
        by (rule Cons.prems(1))
    next
      assume cl
      then show "n \<le> ticks es" using Cons.prems(2) Line by simp
    next
      show "0 < n" by (rule Cons.prems(3))
    qed
    with nl Line show ?thesis by (simp add: Let_def)
  qed
qed

lemma subscribe_with_timeout:
  assumes "cl \<Longrightarrow> n \<le> ticks es" and "0 < n"
  shows "subscribe count (Some n) cl es = Some (Inl TimeoutError)
         \<or> (\<exists>pre rest. es = pre @ rest \<and> ticks pre < n
               \<and> subscribe count (Some n) cl es = Some (Inr (Some (n - ticks pre), rest)))"
  using assms
proof (induction es arbitrary: n count)
  case Nil
  then show ?case by auto
next
  case (Cons e es)
  show ?case
  proof (cases e)
    case Tick
    show ?thesis
    proof (cases "n \<le> 1")
      case True
      with Tick show ?thesis by simp
    next
      case False
      have "subscribe count (Some (n - 1)) cl es = Some (Inl TimeoutError)
         \<or> (\<exists>pre rest. es = pre @ rest \<and> ticks pre < n - 1
               \<and> subscribe count (Some (n - 1)) cl es = Some (Inr (Some (n - 1 - ticks pre), rest)))"
        using Cons.prems Tick False by (intro Cons.IH) auto
      then show ?thesis
      proof
        assume "subscribe count (Some (n - 1)) cl es = Some (Inl TimeoutError)"
        with Tick False show ?thesis by simp
      next
        assume "\<exists>pre rest. es = pre @ rest \<and> ticks pre < n - 1
               \<and> subscribe count (Some (n - 1)) cl es = Some (Inr (Some (n - 1 - ticks pre), rest))"
        then obtain pre rest where h: "es = pre @ rest" "ticks pre < n - 1"
          "subscribe count (Some (n - 1)) cl es = Some (Inr (Some (n - 1 - ticks pre), rest))"
          by blast
        then have "e # es = (Tick # pre) @ rest \<and> ticks (Tick # pre) < n
               \<and> subscribe count (Some n) cl (e # es) = Some (Inr (Some (n - ticks (Tick # pre)), rest))"
          using Tick False by simp
        then show ?thesis by blast
      qed
    qed
  next
    case (Line l)
    show ?thesis
    proof (cases "count + 1 = 2")
      case True
      then have "e # es = [Line l] @ es \<and> ticks [Line l] < n
               \<and> subscribe count (Some n) cl (e # es) = Some (Inr (Some (n - ticks [Line l]), es))"
        using Line Cons.prems by simp
      then show ?thesis by blast
    next
      case False
      have "subscribe (count + 1) (Some n) cl es = Some (Inl TimeoutError)
         \<or> (\<exists>pre rest. es = pre @ rest \<and> ticks pre < n
               \<and> subscribe (count + 1) (Some n) cl es = Some (Inr (Some (n - ticks pre), rest)))"
        using Cons.prems Line by (intro Cons.IH) auto
      then show ?thesis
      proof
        assume "subscribe (count + 1) (Some n) cl es = Some (Inl TimeoutError)"
        with Line False show ?thesis by simp
      next
        assume "\<exists>pre rest. es = pre @ rest \<and> ticks pre < n
               \<and> subscribe (count + 1) (Some n) cl es = Some (Inr (Some (n - ticks pre), rest))"
        then obtain pre rest where h: "es = pre @ rest" "ticks pre < n"
          "subscribe (count + 1) (Some n) cl es = Some (Inr (Some (n - ticks pre), rest))"
          by blast
        then have "e # es = (Line l # pre) @ rest \<and> ticks (Line l # pre) < n
               \<and> subscribe count (Some n) cl (e # es) = Some (Inr (Some (n - ticks (Line l # pre)), rest))"
          using Line False by simp
        then show ?thesis by blast
      qed
    qed
  qed
qed

subsection \<open>The watchdog timer\<close>

lemma mark_end_without_task:
  "timer_task t = None \<Longrightarrow>
   mark_end name t = (Inl (PyException ''Internal error: marking end without a start?!''), t)"
  by (simp add: mark_end_def split: option.splits)

text \<open>
  C9. On a timer on which \<open>mark_start\<close> has not been called, \<open>mark_end\<close> raises the
  internal-error exception and the timer is left exactly as it was, so that any number of
  further calls behave the same way.
\<close>

theorem mark_end_before_mark_start:
  "mark_end name (Timer duration) =
     (Inl (PyException ''Internal error: marking end without a start?!''), Timer duration)"
  by (rule mark_end_without_task) (simp add: Timer_def)

subsection \<open>Installation\<close>

text \<open>
  C1. The claim is that \<open>from_apk\<close> and \<open>from_apk_async\<close> check the list of
  installed packages after the install and raise when the package stays absent.
  \<open>verify_install\<close> does that (see \<open>verify_install_absent\<close>), but neither constructor
  calls it. On a device that accepts the install and never lists the package, both return
  the application; the only interactions are the install commands, and no package list is
  requested. The last conjunct shows that \<open>verify_install\<close>, had it been called, would
  have raised.
\<close>

theorem from_apk_skips_verification:
  "fst (from_apk quiet_device ''app.apk'' camera_manifest False) = Inr camera_app
   \<and> issued (snd (from_apk quiet_device ''app.apk'' camera_manifest False))
       = [Execute [''install'', ''app.apk'']]
   \<and> fst (from_apk_async quiet_device ''app.apk'' camera_manifest False False) = Inr camera_app
   \<and> issued (snd (from_apk_async quiet_device ''app.apk'' camera_manifest False False))
       = [Execute [''push'', ''app.apk'', ''/data/local/tmp/com.example.app''],
          AcquireLock,
          Monitor [''shell'', ''pm'', ''install'', ''/data/local/tmp/com.example.app''],
          ReleaseLock,
          Execute [''shell'', ''rm'', ''/data/local/tmp/com.example.app'']]
   \<and> ''com.example.app'' \<notin> set (installed_packages quiet_device [Execute [''install'', ''app.apk'']])
   \<and> fst (verify_install (snd (from_apk quiet_device ''app.apk'' camera_manifest False))
             ''com.example.app'') \<noteq> Inr ()"
  by (simp add: from_apk_def from_apk_async_def install_def monitor_install_def
        execute_remote_cmd_def monitor_remote_cmd_def verify_install_def
        list_installed_packages_def sleep_def Application_def perform_def Let_def
        quiet_device_def camera_manifest_def camera_app_def)

subsection \<open>Clearing data\<close>

lemma clear_data_application:
  "snd (snd (clear_data d app regrant)) =
     (if failing d (issued d) (Execute [''shell'', ''pm'', ''clear'', package_name app]) then app
      else if regrant
           then snd (fst (regrant_permissions
                   (perform d (Execute [''shell'', ''pm'', ''clear'', package_name app])) app))
           else app\<lparr>granted_permissions := []\<rparr>)"
  by (simp add: clear_data_def execute_remote_cmd_def split: prod.splits sum.splits)

lemma clear_data_without_regrant:
  "\<not> failing d (issued d) (Execute [''shell'', ''pm'', ''clear'', package_name app])
   \<Longrightarrow> granted_permissions (snd (snd (clear_data d app False))) = []"
  by (simp add: clear_data_application)

lemma clear_data_regrant_nonempty:
  assumes "\<forall>p \<in> set (DANGEROUS_PERMISSIONS d). strip p = p"
    and "set (granted_permissions app) \<subseteq> set (DANGEROUS_PERMISSIONS d)"
    and "granted_permissions app \<noteq> []"
  shows "set (granted_permissions (snd (snd (clear_data d app True)))) = set (granted_permissions app)"
proof -
  let ?d1 = "perform d (Execute [''shell'', ''pm'', ''clear'', package_name app])"
  have clean: "\<forall>p \<in> set (DANGEROUS_PERMISSIONS ?d1). strip p = p" using assms(1) by simp
  have req: "requested_permissions app (Some (PySet (granted_permissions app)))
               = PySet (granted_permissions app)"
    using assms(3) by (simp add: requested_permissions_def)
  have "set (granted_permissions (snd (fst (regrant_permissions ?d1 app))))
          = set (granted_permissions app)"
    unfolding regrant_permissions_def
    using grant_permissions_general(2) [of ?d1 app "Some (PySet (granted_permissions app))"]
      permissions_filtered_clean [OF clean, of "granted_permissions app"] assms(2) req
    by auto
  then show ?thesis
    using assms(2) by (auto simp add: clear_data_application)
qed

text \<open>
  C2. The claim is that \<open>clear_data\<close> with re-granting leaves the granted set as it
  was, also when it was empty. With an empty granted set \<open>regrant_permissions\<close> passes
  an empty set to \<open>grant_permissions\<close>, which then falls back on the declared
  permissions: the application below had nothing granted, and after the clear its declared
  camera permission has been granted and recorded. The other two parts of the claim hold
  (\<open>clear_data_without_regrant\<close>, \<open>clear_data_regrant_nonempty\<close>).
\<close>

theorem clear_data_regrant_grants_declared:
  "granted_permissions camera_app = []
   \<and> fst (clear_data quiet_device camera_app True) = Inr ()
   \<and> granted_permissions (snd (snd (clear_data quiet_device camera_app True)))
       = [''android.permission.CAMERA'']
   \<and> issued (fst (snd (clear_data quiet_device camera_app True)))
       = [Execute [''shell'', ''pm'', ''clear'', ''com.example.app''],
          Execute [''shell'', ''pm'', ''grant'', ''com.example.app'', ''android.permission.CAMERA'']]"
  by (simp add: clear_data_def regrant_permissions_def grant_permissions_def
        requested_permissions_def permissions_filtered_def execute_remote_cmd_def
        perform_def strip_def is_space_def Let_def quiet_device_def camera_app_def)

subsection \<open>Foreground check\<close>

text \<open>
  C8. The claim is that \<open>in_foreground\<close> returns false when the activity stack has no
  entry outside the silent packages. It raises \<^verbatim>\<open>IndexError\<close> instead: on a missing
  stack, on an empty stack, and on a stack made of silent packages only
  (\<open>in_foreground_all_silent\<close> is the general fact). The guard
  \<^verbatim>\<open>index > len(activity_stack)\<close> can never hold. When a non-silent entry exists the
  comparison is the claimed one (\<open>in_foreground_first_non_silent\<close>), as in the last
  conjunct.
\<close>

theorem in_foreground_raises_without_foreground_entry:
  "fst (in_foreground quiet_device camera_app True) = Inl IndexError
   \<and> fst (in_foreground (quiet_device\<lparr>activity_stack := \<lambda>h. Some []\<rparr>) camera_app True)
       = Inl IndexError
   \<and> fst (in_foreground
            (quiet_device\<lparr>activity_stack := \<lambda>h. Some [''com.wssyncmldm'', ''com.bitbar.testdroid.monitor'']\<rparr>)
            camera_app True) = Inl IndexError
   \<and> fst (in_foreground
            (quiet_device\<lparr>activity_stack := \<lambda>h. Some [''com.wssyncmldm'', ''com.example.APP'']\<rparr>)
            camera_app True) = Inr True"
proof -
  have a: "fst (in_foreground quiet_device camera_app True) = Inl IndexError"
    using in_foreground_all_silent [of "[]" quiet_device camera_app]
    by (simp add: quiet_device_def)
  have b: "fst (in_foreground (quiet_device\<lparr>activity_stack := \<lambda>h. Some []\<rparr>) camera_app True)
       = Inl IndexError"
    using in_foreground_all_silent [of "[]" "quiet_device\<lparr>activity_stack := \<lambda>h. Some []\<rparr>" camera_app]
    by simp
  have c: "fst (in_foreground
            (quiet_device\<lparr>activity_stack := \<lambda>h. Some [''com.wssyncmldm'', ''com.bitbar.testdroid.monitor'']\<rparr>)
            camera_app True) = Inl IndexError"
    using in_foreground_all_silent [of "[''com.wssyncmldm'', ''com.bitbar.testdroid.monitor'']"
      "quiet_device\<lparr>activity_stack := \<lambda>h. Some [''com.wssyncmldm'', ''com.bitbar.testdroid.monitor'']\<rparr>" camera_app]
    by (simp add: SILENT_RUNNING_PACKAGES_def lower_def lower_char_def
          upper_case_def lower_case_def)
  have d: "fst (in_foreground
            (quiet_device\<lparr>activity_stack := \<lambda>h. Some [''com.wssyncmldm'', ''com.example.APP'']\<rparr>)
            camera_app True) = Inr True"
    using in_foreground_first_non_silent [of
      "quiet_device\<lparr>activity_stack := \<lambda>h. Some [''com.wssyncmldm'', ''com.example.APP'']\<rparr>"
      "[''com.wssyncmldm'']" "''com.example.APP''" "[]" camera_app]
    by (simp add: SILENT_RUNNING_PACKAGES_def lower_def lower_char_def
          upper_case_def lower_case_def camera_app_def)
  from a b c d show ?thesis by blast
qed

subsection \<open>Orchestrated test runs\<close>

text \<open>
  C6. When the test-services package and the test-orchestrator package are not both in
  the list of installed packages, \<open>run_orchestrated\<close> raises, and the only interaction
  with the device has been the request for that list: no instrumentation command was
  issued. This covers the case where neither package is installed.
\<close>

theorem run_orchestrated_requires_support_packages:
  assumes "\<not> (''android.support.test.services'' \<in> set (installed_packages d (issued d))
             \<and> ''android.support.test.orchestrator'' \<in> set (installed_packages d (issued d)))"
  shows "run_orchestrated d app options = (Inl support_packages_missing, perform d ListPackages)"
  using assms by (auto simp add: run_orchestrated_def list_installed_packages_def)

theorem run_orchestrated_requires_support_packages_witness:
  "\<not> (''android.support.test.services'' \<in> set (installed_packages quiet_device (issued quiet_device))
      \<and> ''android.support.test.orchestrator'' \<in> set (installed_packages quiet_device (issued quiet_device)))
   \<and> run_orchestrated quiet_device camera_test_app [''-e'', ''class'', ''com.example.FooTest'']
       = (Inl support_packages_missing, perform quiet_device ListPackages)
   \<and> issued (perform quiet_device ListPackages) = [ListPackages]"
proof -
  have h: "\<not> (''android.support.test.services'' \<in> set (installed_packages quiet_device (issued quiet_device))
      \<and> ''android.support.test.orchestrator'' \<in> set (installed_packages quiet_device (issued quiet_device)))"
    by (simp add: quiet_device_def)
  show ?thesis
    using h run_orchestrated_requires_support_packages [OF h, of camera_test_app "[''-e'', ''class'', ''com.example.FooTest'']"]
    by (simp add: quiet_device_def)
qed

subsection \<open>Granting permissions\<close>

lemma permissions_filtered_distinct: "distinct (permissions_filtered d ps)"
  by (simp add: permissions_filtered_def)

text \<open>
  What \<open>grant_permissions\<close> does with the request it settles on: the permissions
  attempted are the stripped dangerous ones among it, each once; one grant command per
  attempted permission is issued, in sequence, and nothing else, whatever the device
  answers; every attempted permission is recorded. When nothing is attempted, nothing
  changes, and the empty set is returned unless the log message cannot be formatted.
\<close>

lemma grant_permissions_attempts:
  "\<exists>fs. distinct fs
      \<and> set fs = strip ` (set (elements (requested_permissions app perms))
                            \<inter> set (DANGEROUS_PERMISSIONS d))
      \<and> fst (fst (grant_permissions d app perms))
           = d\<lparr>issued := issued d @ map (grant_cmd (package_name app)) fs\<rparr>
      \<and> set (granted_permissions (snd (fst (grant_permissions d app perms))))
           = set (granted_permissions app) \<union> set fs
      \<and> (if fs = []
          then grant_permissions d app perms
                 = ((d, app), if formats (requested_permissions app perms)
                              then Inr [] else Inl TypeError)
          else snd (grant_permissions d app perms)
                 = Inr (granted_permissions (snd (fst (grant_permissions d app perms)))))"
proof -
  let ?fs = "permissions_filtered d (elements (requested_permissions app perms))"
  have "distinct ?fs" by (rule permissions_filtered_distinct)
  moreover have "set ?fs = strip ` (set (elements (requested_permissions app perms))
                            \<inter> set (DANGEROUS_PERMISSIONS d))"
    by (rule permissions_filtered_set)
  moreover have "fst (fst (grant_permissions d app perms))
                = d\<lparr>issued := issued d @ map (grant_cmd (package_name app)) ?fs\<rparr>"
    by (rule grant_permissions_general(1))
  moreover have "set (granted_permissions (snd (fst (grant_permissions d app perms))))
                = set (granted_permissions app) \<union> set ?fs"
    by (rule grant_permissions_general(2))
  moreover have "if ?fs = []
          then grant_permissions d app perms
                 = ((d, app), if formats (requested_permissions app perms)
                              then Inr [] else Inl TypeError)
          else snd (grant_permissions d app perms)
                 = Inr (granted_permissions (snd (fst (grant_permissions d app perms))))"
    using grant_permissions_general(3,4) [of d app perms] by simp
  ultimately show ?thesis by blast
qed

text \<open>
  C4. The claim is that the requested permissions are filtered, and that an empty result
  means no grant command and the empty set as the value. Two calls break it. With an
  empty list as the request nothing is requested, yet the declared camera permission is
  granted and returned: the empty list counts as an omitted argument (an empty iterator,
  which is true in a condition, is handled as the claim says). With a tuple of two
  permissions that are not dangerous, the filtered set is empty and the call raises
  \<^verbatim>\<open>TypeError\<close> while formatting its log message. Apart from these two cases the claim
  holds (\<open>grant_permissions_attempts\<close>).
\<close>

theorem grant_permissions_empty_request_grants_declared:
  "elements (PyList []) = []
   \<and> issued (fst (fst (grant_permissions quiet_device camera_app (Some (PyList [])))))
       = [Execute [''shell'', ''pm'', ''grant'', ''com.example.app'', ''android.permission.CAMERA'']]
   \<and> snd (grant_permissions quiet_device camera_app (Some (PyList [])))
       = Inr [''android.permission.CAMERA'']
   \<and> grant_permissions quiet_device camera_app (Some (PyIterator []))
       = ((quiet_device, camera_app), Inr [])
   \<and> permissions_filtered quiet_device
         [''android.permission.INTERNET'', ''android.permission.VIBRATE''] = []
   \<and> grant_permissions quiet_device camera_app
         (Some (PyTuple [''android.permission.INTERNET'', ''android.permission.VIBRATE'']))
       = ((quiet_device, camera_app), Inl TypeError)"
  by (simp add: grant_permissions_def requested_permissions_def permissions_filtered_def
        execute_remote_cmd_def perform_def strip_def is_space_def Let_def
        quiet_device_def camera_app_def)




subsection \<open>Clean kill\<close>

text \<open>
  C5, as stated, fails when the home screen never becomes active but the process is gone
  after the kill command: all three polls are negative, and \<open>clean_kill\<close> returns
  normally. The home screen is only consulted again once a process has been found.
\<close>

theorem clean_kill_home_never_active_counterexample:
  "fst (clean_kill quiet_device camera_app) = Inr ()
   \<and> issued (snd (clean_kill quiet_device camera_app))
       = [KeyEvent ''KEYCODE_HOME'',
          HomeScreenActive, Sleep 500, HomeScreenActive, Sleep 500, HomeScreenActive, Sleep 500,
          Execute [''shell'', ''am'', ''kill'', ''com.example.app''],
          Pidof ''com.example.app'']
   \<and> \<not> home_active quiet_device [KeyEvent ''KEYCODE_HOME'']
   \<and> \<not> home_active quiet_device [KeyEvent ''KEYCODE_HOME'', HomeScreenActive, Sleep 500]
   \<and> \<not> home_active quiet_device
         [KeyEvent ''KEYCODE_HOME'', HomeScreenActive, Sleep 500, HomeScreenActive, Sleep 500]"
  by (simp add: clean_kill_def send_home_and_kill_def input_def execute_remote_cmd_def pid_def
        home_screen_active_def sleep_def perform_def numeral_3_eq_3
        quiet_device_def camera_app_def)

text \<open>
  C5, amended. \<open>clean_kill\<close> returns normally exactly when the home key event and the
  kill command were accepted and no process of the application is detectable after the
  kill; whether the home screen became active during the polls does not matter. When a
  process is still detectable it raises: that the application could not be put in the
  background if the home screen is not active at that moment, that the process is still
  running otherwise. The key event and the kill command are accepted or rejected by the
  device alone.
\<close>

theorem clean_kill_returns_iff_process_gone:
  "(fst (clean_kill d app) = Inr ()
      \<longleftrightarrow> fst (send_home_and_kill d app) = Inr ()
          \<and> fst (pid (snd (send_home_and_kill d app)) app) = None)
   \<and> (fst (send_home_and_kill d app) = Inr ()
        \<longrightarrow> fst (pid (snd (send_home_and_kill d app)) app) \<noteq> None
        \<longrightarrow> fst (clean_kill d app) =
              Inl (PyException
                (if fst (home_screen_active (snd (pid (snd (send_home_and_kill d app)) app)))
                 then ''Detected app process is still running. App closure failed.''
                 else ''Failed to background current foreground app. Cannot complete app closure.'')))
   \<and> (fst (send_home_and_kill d app) = Inr ()
        \<longleftrightarrow> \<not> failing d (issued d) (KeyEvent ''KEYCODE_HOME'')
            \<and> \<not> failing d (issued (poll_home 3 (perform d (KeyEvent ''KEYCODE_HOME''))))
                  (Execute [''shell'', ''am'', ''kill'', package_name app]))"
proof -
  have a: "fst (clean_kill d app) = Inr ()
      \<longleftrightarrow> fst (send_home_and_kill d app) = Inr ()
          \<and> fst (pid (snd (send_home_and_kill d app)) app) = None"
    by (rule clean_kill_iff)
  have b: "fst (clean_kill d app) =
              Inl (PyException
                (if fst (home_screen_active (snd (pid (snd (send_home_and_kill d app)) app)))
                 then ''Detected app process is still running. App closure failed.''
                 else ''Failed to background current foreground app. Cannot complete app closure.''))"
    if "fst (send_home_and_kill d app) = Inr ()"
      and "fst (pid (snd (send_home_and_kill d app)) app) \<noteq> None"
    using that
    by (auto simp add: clean_kill_def Let_def split: prod.splits sum.splits option.splits)
  have c: "fst (send_home_and_kill d app) = Inr ()
        \<longleftrightarrow> \<not> failing d (issued d) (KeyEvent ''KEYCODE_HOME'')
            \<and> \<not> failing d (issued (poll_home 3 (perform d (KeyEvent ''KEYCODE_HOME''))))
                  (Execute [''shell'', ''am'', ''kill'', package_name app])"
    by (rule send_home_and_kill_ok)
  from a b c show ?thesis by blast
qed

theorem clean_kill_returns_iff_process_gone_witness:
  "fst (send_home_and_kill surviving_device camera_app) = Inr ()
   \<and> fst (pid (snd (send_home_and_kill surviving_device camera_app)) camera_app) \<noteq> None
   \<and> fst (clean_kill surviving_device camera_app)
       = Inl (PyException ''Detected app process is still running. App closure failed.'')"
proof -
  have h1: "fst (send_home_and_kill surviving_device camera_app) = Inr ()"
    by (simp add: send_home_and_kill_def input_def execute_remote_cmd_def
          surviving_device_def quiet_device_def)
  have h2: "fst (pid (snd (send_home_and_kill surviving_device camera_app)) camera_app) \<noteq> None"
    by (simp add: pid_def send_home_and_kill_def input_def execute_remote_cmd_def
          surviving_device_def quiet_device_def)
  have h3: "fst (home_screen_active
              (snd (pid (snd (send_home_and_kill surviving_device camera_app)) camera_app)))"
    by (simp add: home_screen_active_def pid_def send_home_and_kill_def input_def
          execute_remote_cmd_def surviving_device_def quiet_device_def)
  show ?thesis
    using h1 h2 h3 clean_kill_returns_iff_process_gone [of surviving_device camera_app]
    by simp
qed

subsection \<open>Launch\<close>

lemma before_timeout_append:
  "ticks pre < n \<Longrightarrow> before_timeout n (pre @ rest) = pre @ before_timeout (n - ticks pre) rest"
proof (induction pre arbitrary: n)
  case Nil
  then show ?case by simp
next
  case (Cons e pre)
  then show ?case by (cases e) auto
qed

text \<open>
  C3, as stated, fails when a line with \<^verbatim>\<open>Displayed\<close> and the package name comes
  before the \<^verbatim>\<open>Process\<close> line: the scan ends there with success, although a
  fatal-exception line came first and the \<^verbatim>\<open>Process\<close> line follows.
\<close>

theorem launch_displayed_before_process_counterexample:
  "contains ''FATAL EXCEPTION'' ''E AndroidRuntime: FATAL EXCEPTION: main''
   \<and> contains ''Process'' ''E AndroidRuntime: Process: com.example.app, PID: 1''
   \<and> contains (package_name camera_app) ''E AndroidRuntime: Process: com.example.app, PID: 1''
   \<and> fst (launch quiet_device camera_app ''MainActivity'' [] None None
        \<lparr>events = [Line ''--------- beginning of main'', Line ''--------- beginning of system'',
                   Line ''E AndroidRuntime: FATAL EXCEPTION: main'',
                   Line ''I ActivityManager: Displayed com.example.app/.MainActivity: +1s'',
                   Line ''E AndroidRuntime: Process: com.example.app, PID: 1''],
         closes = False\<rparr>) = Some (Inr ())"
  by (simp add: launch_def start_def monitor_remote_cmd_def execute_remote_cmd_def perform_def
        quiet_device_def camera_app_def)

text \<open>
  C3, amended. Let the subscription have consumed its two lines (\<open>s0\<close> and \<open>b\<close>) and
  the start command be accepted. If, among the lines read after that, a line \<open>p\<close>
  contains \<^verbatim>\<open>Process\<close> and the package name, a fatal-exception marker occurs in \<open>p\<close>
  or in a line before it, no line before \<open>p\<close> contains both \<^verbatim>\<open>Displayed\<close> and the
  package name, and \<open>p\<close> arrives before the timeout if there is one, then \<open>launch\<close>
  raises the crash failure, whatever follows \<open>p\<close> in the stream.
\<close>

theorem launch_crash_detected:
  assumes "events s = s0 @ Line b # pre @ Line p # post"
    and "length (lines_of s0) = 1"
    and "\<exists>f \<in> set (lines_of pre @ [p]). contains ''FATAL EXCEPTION'' f"
    and "contains ''Process'' p \<and> contains (package_name app) p"
    and "\<forall>l \<in> set (lines_of pre). \<not> (contains ''Displayed'' l \<and> contains (package_name app) l)"
    and "case timeout of None \<Rightarrow> True | Some n \<Rightarrow> ticks (s0 @ pre) < n"
    and "fst (start (monitor_remote_cmd d logcat_cmd) app activity options intent) = Inr ()"
  shows "fst (launch d app activity options intent timeout s)
           = Some (Inl (PyException ''App crashed on startup''))"
proof -
  let ?budget = "map_option (\<lambda>n. n - ticks s0) timeout"
  have t0: "timeout \<noteq> Some 0" using assms(6) by auto
  have b1: "case timeout of None \<Rightarrow> True | Some n \<Rightarrow> ticks s0 < n"
    using assms(6) by (auto split: option.splits)
  have sub: "subscribe 0 timeout (closes s) (events s)
               = Some (Inr (?budget, pre @ Line p # post))"
    unfolding assms(1) using assms(2) b1 by (intro subscribe_two_lines) simp_all
  have b2: "case ?budget of None \<Rightarrow> True | Some n \<Rightarrow> ticks pre < n"
    using assms(6) by (auto split: option.splits)
  have sc: "scan (package_name app) False ?budget (closes s) (pre @ Line p # post)
              = Some (Inl (PyException ''App crashed on startup''))"
    using assms(3,4,5) b2 by (intro scan_crash) simp_all
  obtain d2 where st: "start (monitor_remote_cmd d logcat_cmd) app activity options intent = (Inr (), d2)"
    using assms(7) by (cases "start (monitor_remote_cmd d logcat_cmd) app activity options intent") auto
  show ?thesis
    using t0 sub sc st by (simp add: launch_def)
qed

theorem launch_crash_detected_witness:
  "fst (launch quiet_device camera_app ''MainActivity'' [] None (Some 3)
        \<lparr>events = [Line ''--------- beginning of main'', Tick, Line ''--------- beginning of system'',
                   Line ''E AndroidRuntime: FATAL EXCEPTION: main'', Tick,
                   Line ''E AndroidRuntime: Process: com.example.app, PID: 1'',
                   Line ''I ActivityManager: Displayed com.example.app/.MainActivity: +1s''],
         closes = False\<rparr>) = Some (Inl (PyException ''App crashed on startup''))"
proof -
  let ?s = "\<lparr>events = [Line ''--------- beginning of main'', Tick, Line ''--------- beginning of system'',
                   Line ''E AndroidRuntime: FATAL EXCEPTION: main'', Tick,
                   Line ''E AndroidRuntime: Process: com.example.app, PID: 1'',
                   Line ''I ActivityManager: Displayed com.example.app/.MainActivity: +1s''],
         closes = False\<rparr>"
  have h1: "events ?s = [Line ''--------- beginning of main'', Tick]
              @ Line ''--------- beginning of system''
              # [Line ''E AndroidRuntime: FATAL EXCEPTION: main'', Tick]
              @ Line ''E AndroidRuntime: Process: com.example.app, PID: 1''
              # [Line ''I ActivityManager: Displayed com.example.app/.MainActivity: +1s'']"
    by simp
  have h2: "length (lines_of [Line ''--------- beginning of main'', Tick]) = 1" by simp
  have h3: "\<exists>f \<in> set (lines_of [Line ''E AndroidRuntime: FATAL EXCEPTION: main'', Tick]
                @ [''E AndroidRuntime: Process: com.example.app, PID: 1'']).
              contains ''FATAL EXCEPTION'' f"
    by simp
  have h4: "contains ''Process'' ''E AndroidRuntime: Process: com.example.app, PID: 1''
            \<and> contains (package_name camera_app) ''E AndroidRuntime: Process: com.example.app, PID: 1''"
    by (simp add: camera_app_def)
  have h5: "\<forall>l \<in> set (lines_of [Line ''E AndroidRuntime: FATAL EXCEPTION: main'', Tick]).
              \<not> (contains ''Displayed'' l \<and> contains (package_name camera_app) l)"
    by simp
  have h6: "case Some (3::nat) of None \<Rightarrow> True
            | Some n \<Rightarrow> ticks ([Line ''--------- beginning of main'', Tick]
                           @ [Line ''E AndroidRuntime: FATAL EXCEPTION: main'', Tick]) < n"
    by simp
  have h7: "fst (start (monitor_remote_cmd quiet_device logcat_cmd) camera_app ''MainActivity'' [] None)
              = Inr ()"
    by (simp add: start_def execute_remote_cmd_def monitor_remote_cmd_def quiet_device_def)
  show ?thesis
    by (rule launch_crash_detected [OF h1 h2 h3 h4 h5 h6 h7])
qed

text \<open>
  C7, as stated, fails when the log stream ends before the timeout: the scan loop runs
  out of lines and \<open>launch\<close> returns normally, although no line contained
  \<^verbatim>\<open>Displayed\<close> or the fatal-exception marker.
\<close>

theorem launch_stream_ends_counterexample:
  "\<not> contains ''Displayed'' ''--------- beginning of main''
   \<and> \<not> contains ''FATAL EXCEPTION'' ''--------- beginning of main''
   \<and> \<not> contains ''Displayed'' ''--------- beginning of system''
   \<and> \<not> contains ''FATAL EXCEPTION'' ''--------- beginning of system''
   \<and> \<not> contains ''Displayed'' ''I ActivityManager: Start proc 1:com.example.app''
   \<and> \<not> contains ''FATAL EXCEPTION'' ''I ActivityManager: Start proc 1:com.example.app''
   \<and> fst (launch quiet_device camera_app ''MainActivity'' [] None (Some 5)
        \<lparr>events = [Line ''--------- beginning of main'', Line ''--------- beginning of system'',
                   Line ''I ActivityManager: Start proc 1:com.example.app''],
         closes = True\<rparr>) = Some (Inr ())"
  by (simp add: launch_def start_def monitor_remote_cmd_def execute_remote_cmd_def perform_def
        quiet_device_def camera_app_def)

text \<open>
  C7, amended. With a timeout of \<open>n\<close> units, if no line that arrives within the timeout
  contains the fatal-exception marker or both \<^verbatim>\<open>Displayed\<close> and the package name, the
  stream does not end before the timeout, and the start command is accepted, then
  \<open>launch\<close> raises the timeout failure.
\<close>

theorem launch_times_out:
  assumes "\<forall>l \<in> set (lines_of (before_timeout n (events s))).
             \<not> contains ''FATAL EXCEPTION'' l
             \<and> \<not> (contains ''Displayed'' l \<and> contains (package_name app) l)"
    and "closes s \<longrightarrow> n \<le> ticks (events s)"
    and "fst (start (monitor_remote_cmd d logcat_cmd) app activity options intent) = Inr ()"
  shows "fst (launch d app activity options intent (Some n) s) = Some (Inl TimeoutError)"
proof (cases "n = 0")
  case True
  then show ?thesis by (simp add: launch_def)
next
  case False
  then have pos: "0 < n" by simp
  from subscribe_with_timeout [of "closes s" n "events s" 0] assms(2) pos
  consider "subscribe 0 (Some n) (closes s) (events s) = Some (Inl TimeoutError)"
    | pre rest where "events s = pre @ rest" "ticks pre < n"
        "subscribe 0 (Some n) (closes s) (events s) = Some (Inr (Some (n - ticks pre), rest))"
    by blast
  then show ?thesis
  proof cases
    case 1
    with False show ?thesis by (simp add: launch_def)
  next
    case 2
    obtain d2 where st: "start (monitor_remote_cmd d logcat_cmd) app activity options intent = (Inr (), d2)"
      using assms(3) by (cases "start (monitor_remote_cmd d logcat_cmd) app activity options intent") auto
    have "scan (package_name app) False (Some (n - ticks pre)) (closes s) rest = Some (Inl TimeoutError)"
    proof (rule scan_times_out)
      fix pre' l post
      assume r: "rest = pre' @ Line l # post" and t: "ticks pre' < n - ticks pre"
      have "ticks (pre @ pre') < n" using t 2(2) by simp
      then have "before_timeout n ((pre @ pre') @ Line l # post)
                   = (pre @ pre') @ before_timeout (n - ticks (pre @ pre')) (Line l # post)"
        by (rule before_timeout_append)
      moreover have "n - ticks (pre @ pre') \<noteq> 0" using t by simp
      ultimately have "l \<in> set (lines_of (before_timeout n (events s)))"
        using 2(1) r by simp
      with assms(1) show "\<not> contains ''FATAL EXCEPTION'' l
             \<and> \<not> (contains ''Displayed'' l \<and> contains (package_name app) l)"
        by blast
    next
      assume "closes s"
      with assms(2) have "n \<le> ticks (events s)" by simp
      then show "n - ticks pre \<le> ticks rest" using 2(1) by simp
    next
      show "0 < n - ticks pre" using 2(2) by simp
    qed
    with False 2(3) st show ?thesis by (simp add: launch_def)
  qed
qed

theorem launch_times_out_witness:
  "fst (launch quiet_device camera_app ''MainActivity'' [] None (Some 2)
        \<lparr>events = [Line ''--------- beginning of main'', Line ''--------- beginning of system'',
                   Tick, Line ''I ActivityManager: Start proc 1:com.example.app'', Tick,
                   Line ''I ActivityManager: Displayed com.example.app/.MainActivity: +9s''],
         closes = False\<rparr>) = Some (Inl TimeoutError)"
proof -
  let ?s = "\<lparr>events = [Line ''--------- beginning of main'', Line ''--------- beginning of system'',
                   Tick, Line ''I ActivityManager: Start proc 1:com.example.app'', Tick,
                   Line ''I ActivityManager: Displayed com.example.app/.MainActivity: +9s''],
         closes = False\<rparr>"
  have h1: "\<forall>l \<in> set (lines_of (before_timeout 2 (events ?s))).
             \<not> contains ''FATAL EXCEPTION'' l
             \<and> \<not> (contains ''Displayed'' l \<and> contains (package_name camera_app) l)"
    by simp
  have h2: "closes ?s \<longrightarrow> 2 \<le> ticks (events ?s)" by simp
  have h3: "fst (start (monitor_remote_cmd quiet_device logcat_cmd) camera_app ''MainActivity'' [] None)
              = Inr ()"
    by (simp add: start_def execute_remote_cmd_def monitor_remote_cmd_def quiet_device_def)
  show ?thesis
    by (rule launch_times_out [OF h1 h2 h3])
qed

end
